theory Spec2Isabelle
  imports Complex_Main "HOL-Library.Multiset"
begin

section \<open>Floating-point values that are compared\<close>

text \<open>
  A Python float is a finite number, an infinity or NaN. The training loop only compares
  validation losses with \<open><\<close>, and a comparison of two floats is exact, so a finite
  float is represented by the real number it denotes. Every comparison with NaN is false.
\<close>

datatype pyfloat = Finite real | PosInf | NegInf | NaN

fun flt :: "pyfloat \<Rightarrow> pyfloat \<Rightarrow> bool" where
  "flt NaN _ = False"
| "flt _ NaN = False"
| "flt (Finite a) (Finite b) = (a < b)"
| "flt (Finite _) PosInf = True"
| "flt (Finite _) NegInf = False"
| "flt PosInf _ = False"
| "flt NegInf NegInf = False"
| "flt NegInf _ = True"

section \<open>The training loop of \<open>main\<close>: early stopping\<close>

text \<open>
  One epoch trains the live model and measures the validation loss. Neither depends on
  the early-stopping variables, so the outcome of epoch \<open>e\<close> is a parameter
  \<open>run_epoch e\<close>: the live weights after the epoch's optimisation steps and the
  validation loss. The state holds the variables of \<open>main\<close> that the loop updates;
  \<open>history_val_loss\<close> is \<open>history['val_loss']\<close>, appended once per epoch.
\<close>

record 'w train_state =
  model_wts :: 'w
  best_model_wts :: 'w
  best_loss :: pyfloat
  epochs_no_improve :: nat
  history_val_loss :: "pyfloat list"

definition num_epochs :: nat where
  "num_epochs = 100"

definition patience :: nat where
  "patience = 15"

definition init_state :: "'w \<Rightarrow> 'w train_state" where
  "init_state w0 =
     \<lparr>model_wts = w0, best_model_wts = w0, best_loss = PosInf,
      epochs_no_improve = 0, history_val_loss = []\<rparr>"

text \<open>The body of the epoch loop up to the early-stopping test.\<close>

definition epoch_body :: "(nat \<Rightarrow> 'w \<times> pyfloat) \<Rightarrow> nat \<Rightarrow> 'w train_state \<Rightarrow> 'w train_state" where
  "epoch_body run_epoch epoch s =
     (let (wts, val_loss) = run_epoch epoch;
          s1 = s\<lparr>model_wts := wts, history_val_loss := history_val_loss s @ [val_loss]\<rparr>
      in if flt val_loss (best_loss s1)
         then s1\<lparr>best_loss := val_loss, best_model_wts := model_wts s1, epochs_no_improve := 0\<rparr>
         else s1\<lparr>epochs_no_improve := epochs_no_improve s1 + 1\<rparr>)"

text \<open>\<open>for epoch in range(num_epochs)\<close> with its \<open>break\<close>.\<close>

fun epoch_loop :: "nat \<Rightarrow> (nat \<Rightarrow> 'w \<times> pyfloat) \<Rightarrow> nat list \<Rightarrow> 'w train_state \<Rightarrow> 'w train_state" where
  "epoch_loop pat run_epoch [] s = s"
| "epoch_loop pat run_epoch (epoch # rest) s =
     (let s' = epoch_body run_epoch epoch s
      in if epochs_no_improve s' \<ge> pat then s' else epoch_loop pat run_epoch rest s')"

text \<open>The loop followed by \<open>model.load_state_dict(best_model_wts)\<close>.\<close>

definition train :: "nat \<Rightarrow> nat \<Rightarrow> 'w \<Rightarrow> (nat \<Rightarrow> 'w \<times> pyfloat) \<Rightarrow> 'w train_state" where
  "train n pat w0 run_epoch =
     (let s = epoch_loop pat run_epoch [0..<n] (init_state w0)
      in s\<lparr>model_wts := best_model_wts s\<rparr>)"

definition main_train :: "'w \<Rightarrow> (nat \<Rightarrow> 'w \<times> pyfloat) \<Rightarrow> 'w train_state" where
  "main_train w0 run_epoch = train num_epochs patience w0 run_epoch"

text \<open>
  Notions used to state what the loop achieves. \<open>after_epochs m\<close> is the state after
  \<open>m\<close> epoch bodies with the stopping test left out; epoch \<open>e\<close> improves when its
  validation loss is below the best loss of the epochs before it.
\<close>

definition after_epochs :: "'w \<Rightarrow> (nat \<Rightarrow> 'w \<times> pyfloat) \<Rightarrow> nat \<Rightarrow> 'w train_state" where
  "after_epochs w0 run_epoch m = fold (epoch_body run_epoch) [0..<m] (init_state w0)"

definition improves :: "'w \<Rightarrow> (nat \<Rightarrow> 'w \<times> pyfloat) \<Rightarrow> nat \<Rightarrow> bool" where
  "improves w0 run_epoch e =
     flt (snd (run_epoch e)) (best_loss (after_epochs w0 run_epoch e))"

section \<open>Tensors and float32 arithmetic\<close>

text \<open>
  A vector along the last axis of a tensor is a list; a tensor of higher rank is its shape
  together with an indexing function, which is only read inside the shape. The capsule
  tensors hold float32 values. For the loss, whose claims concern the formula that is
  computed, the elements are reals.
\<close>

datatype py_error = RuntimeError | UnboundLocalError | IndexError | ValueError

record tensor2 =
  size0 :: nat
  size1 :: nat
  at2 :: "nat \<Rightarrow> nat \<Rightarrow> real"


text \<open>Rounding to an integer, a half going to the even neighbour.\<close>

definition round_half_even :: "real \<Rightarrow> int" where
  "round_half_even r =
     (let f = \<lfloor>r\<rfloor>; d = r - of_int f
      in if d < 1 / 2 then f else if 1 / 2 < d then f + 1 else if even f then f else f + 1)"









definition is_finite :: "pyfloat \<Rightarrow> bool" where
  "is_finite v = (case v of Finite _ \<Rightarrow> True | _ \<Rightarrow> False)"


section \<open>\<open>CapsNetWithDecoder.squash\<close>\<close>





section \<open>\<open>CapsNetWithDecoder.dynamic_routing\<close>\<close>











section \<open>\<open>margin_loss\<close>\<close>

text \<open>
  \<open>F.one_hot(y_true, num_classes)\<close> on the CPU: an empty index tensor needs a positive
  class count; otherwise every label must be non-negative and below the class count.
\<close>

definition one_hot :: "int list \<Rightarrow> nat \<Rightarrow> py_error + tensor2" where
  "one_hot y_true num_classes =
     (if y_true = [] then
        (if num_classes = 0 then Inl RuntimeError
         else Inr \<lparr>size0 = 0, size1 = num_classes, at2 = (\<lambda>i c. 0)\<rparr>)
      else if \<exists>l \<in> set y_true. l < 0 then Inl RuntimeError
      else if \<exists>l \<in> set y_true. int num_classes \<le> l then Inl RuntimeError
      else Inr \<lparr>size0 = length y_true, size1 = num_classes,
                at2 = (\<lambda>i c. if y_true ! i = int c then 1 else 0)\<rparr>)"

definition relu :: "real \<Rightarrow> real" where
  "relu v = max 0 v"

text \<open>\<open>torch.clamp(v, min=lo, max=hi)\<close>.\<close>

definition clamp :: "real \<Rightarrow> real \<Rightarrow> real \<Rightarrow> real" where
  "clamp lo hi v = min (max v lo) hi"

text \<open>The mean of \<open>n\<close> summed elements; the mean of an empty tensor is NaN.\<close>

definition mean_of :: "nat \<Rightarrow> real \<Rightarrow> pyfloat" where
  "mean_of n acc = (if n = 0 then NaN else Finite (acc / real n))"

text \<open>
  Broadcasting of two axis lengths: equal lengths, or one of them 1, which is then
  stretched; anything else raises \<open>RuntimeError\<close>. \<open>bidx n i\<close> is the position read
  on an axis of length \<open>n\<close> for the index \<open>i\<close> of the broadcast result.
\<close>

definition broadcast_dim :: "nat \<Rightarrow> nat \<Rightarrow> py_error + nat" where
  "broadcast_dim a b =
     (if a = b then Inr a else if a = 1 then Inr b else if b = 1 then Inr a else Inl RuntimeError)"

definition bidx :: "nat \<Rightarrow> nat \<Rightarrow> nat" where
  "bidx n i = (if n = 1 then 0 else i)"

text \<open>
  Each tensor expression of the source is written elementwise, indexed by the sample \<open>i\<close>
  and the class \<open>c\<close>. \<open>y_pred0\<close> has shape (\<open>size0\<close>, \<open>size1\<close>), the one-hot tensor has
  one row per label, and the products broadcast. \<open>loss.mean(dim=1)\<close> divides by the class
  count, which is positive once \<open>one_hot\<close> has returned.
\<close>

definition margin_loss ::
  "int list \<Rightarrow> tensor2 \<Rightarrow> real \<Rightarrow> real \<Rightarrow> real \<Rightarrow> real list option \<Rightarrow> py_error + pyfloat" where
  "margin_loss y_true y_pred0 m_plus m_minus lambda class_weights =
     (case one_hot y_true (size1 y_pred0) of
        Inl e \<Rightarrow> Inl e
      | Inr oh \<Rightarrow>
     (case broadcast_dim (size0 y_pred0) (size0 oh) of
        Inl e \<Rightarrow> Inl e
      | Inr n \<Rightarrow>
          (let y_true_one_hot = (\<lambda>i c. at2 oh (bidx (size0 oh) i) c);
               y_pred = (\<lambda>i c. clamp 0 1 (at2 y_pred0 (bidx (size0 y_pred0) i) c));
               positive_loss = (\<lambda>i c. (relu (m_plus - y_pred i c)) ^ 2 * y_true_one_hot i c);
               negative_loss = (\<lambda>i c. (relu (y_pred i c - m_minus)) ^ 2 * (1 - y_true_one_hot i c));
               loss = (\<lambda>i c. positive_loss i c + lambda * negative_loss i c)
           in case class_weights of
                Some cw \<Rightarrow>
                  (case broadcast_dim (size1 oh) (length cw) of
                     Inl e \<Rightarrow> Inl e
                   | Inr m \<Rightarrow>
                       (let sample_weights =
                              (\<lambda>i. \<Sum>c < m. at2 oh i (bidx (size1 oh) c) * cw ! bidx (length cw) c);
                            loss_mean = (\<lambda>i. (\<Sum>c < size1 y_pred0. loss i c) / real (size1 y_pred0))
                        in case broadcast_dim n (size0 oh) of
                             Inl e \<Rightarrow> Inl e
                           | Inr k \<Rightarrow>
                               Inr (mean_of k
                                      (\<Sum>i < k. loss_mean (bidx n i) * sample_weights (bidx (size0 oh) i)))))
              | None \<Rightarrow>
                  Inr (mean_of (n * size1 y_pred0) (\<Sum>i < n. \<Sum>c < size1 y_pred0. loss i c)))))"

text \<open>
  The loss as the specification words it, written out without the functions of the code.
  The prediction is first brought into [0, 1]: a value below 0 becomes 0, a value above 1
  becomes 1. On the true class the element loss is the square of the amount by which the
  prediction falls short of 0.9 (nothing at 0.9 or above); on a false class it is half the
  square of the amount by which the prediction exceeds 0.1 (nothing at 0.1 or below).
  With weights, the result is the batch mean of the per-sample class means, each scaled by
  the weight of the sample's true class; without, the mean over all classes and samples.
\<close>

definition element_loss :: "bool \<Rightarrow> real \<Rightarrow> real" where
  "element_loss is_true_class p =
     (let q = (if p < 0 then 0 else if 1 < p then 1 else p)
      in if is_true_class then (if q < 9 / 10 then (9 / 10 - q) ^ 2 else 0)
         else 1 / 2 * (if 1 / 10 < q then (q - 1 / 10) ^ 2 else 0))"

definition margin_loss_spec :: "int list \<Rightarrow> tensor2 \<Rightarrow> real list option \<Rightarrow> real" where
  "margin_loss_spec y p w =
     (let el = (\<lambda>i c. element_loss (y ! i = int c) (at2 p i c))
      in case w of
           Some cw \<Rightarrow>
             (\<Sum>i < size0 p. (\<Sum>c < size1 p. el i c) / real (size1 p) * cw ! nat (y ! i))
               / real (size0 p)
         | None \<Rightarrow> (\<Sum>i < size0 p. \<Sum>c < size1 p. el i c) / real (size0 p * size1 p))"



text \<open>
  A batch of two samples with predictions outside [0, 1] and on either side of both
  margins: (-0.2, 1.5) for a sample of class 0 and (0.05, 0.95) for a sample of class 1.
\<close>

definition y_pred_example :: tensor2 where
  "y_pred_example =
     \<lparr>size0 = 2, size1 = 2,
      at2 = (\<lambda>i c. if i = 0 then (if c = 0 then - (1 / 5) else 3 / 2)
                     else (if c = 0 then 1 / 20 else 19 / 20))\<rparr>"

section \<open>\<open>load_nodule_data\<close>\<close>

subsection \<open>Arrays\<close>

text \<open>
  A NumPy array is its shape and its elements, read by index lists inside the shape.
  Voxel and pixel values are reals (finite floats, exact arithmetic).
\<close>

record ndarray =
  shape :: "nat list"
  elems :: "nat list \<Rightarrow> real"

text \<open>
  A Python slice \<open>start:stop\<close> on an axis of length \<open>n\<close>: a negative bound counts from
  the end, and both bounds are clipped to the axis. The result is the first index taken
  and the number of indices taken.
\<close>

definition slice_bound :: "nat \<Rightarrow> int \<Rightarrow> nat" where
  "slice_bound n a = (if a < 0 then nat (max (a + int n) 0) else min (nat a) n)"

definition py_slice :: "nat \<Rightarrow> int \<Rightarrow> int \<Rightarrow> nat \<times> nat" where
  "py_slice n start stop = (slice_bound n start, slice_bound n stop - slice_bound n start)"

text \<open>
  \<open>a[s0:e0, s1:e1, s2:e2]\<close>: three slices need at least three axes (\<open>IndexError\<close>
  otherwise); the sliced axes are kept, with their new lengths, and further axes are
  untouched.
\<close>

definition slice3 :: "ndarray \<Rightarrow> int \<times> int \<Rightarrow> int \<times> int \<Rightarrow> int \<times> int \<Rightarrow> py_error + ndarray" where
  "slice3 a r0 r1 r2 =
     (case shape a of
        n0 # n1 # n2 # ns \<Rightarrow>
          (let (o0, l0) = py_slice n0 (fst r0) (snd r0);
               (o1, l1) = py_slice n1 (fst r1) (snd r1);
               (o2, l2) = py_slice n2 (fst r2) (snd r2)
           in Inr \<lparr>shape = l0 # l1 # l2 # ns,
                   elems = (\<lambda>idx. case idx of
                               i0 # i1 # i2 # is \<Rightarrow> elems a ((o0 + i0) # (o1 + i1) # (o2 + i2) # is)
                             | _ \<Rightarrow> 0)\<rparr>)
      | _ \<Rightarrow> Inl IndexError)"

text \<open>
  \<open>a[:, :, k]\<close> with \<open>k \<ge> 0\<close>: the third axis is indexed, which raises \<open>IndexError\<close>
  when \<open>k\<close> is not below its length, and is removed from the shape.
\<close>

definition index_axis2 :: "ndarray \<Rightarrow> nat \<Rightarrow> py_error + ndarray" where
  "index_axis2 a k =
     (case shape a of
        n0 # n1 # n2 # ns \<Rightarrow>
          if k < n2
          then Inr \<lparr>shape = n0 # n1 # ns,
                    elems = (\<lambda>idx. case idx of
                                i0 # i1 # is \<Rightarrow> elems a (i0 # i1 # k # is)
                              | _ \<Rightarrow> 0)\<rparr>
          else Inl IndexError
      | _ \<Rightarrow> Inl IndexError)"

text \<open>\<open>a.shape[k]\<close>, an \<open>IndexError\<close> when the array has no axis \<open>k\<close>.\<close>

definition shape_at :: "ndarray \<Rightarrow> nat \<Rightarrow> py_error + nat" where
  "shape_at a k = (if k < length (shape a) then Inr (shape a ! k) else Inl IndexError)"

text \<open>All index lists of an array of the given shape, and the values stored at them.\<close>

definition indices :: "nat list \<Rightarrow> nat list list" where
  "indices shp = product_lists (map (\<lambda>n. [0..<n]) shp)"

definition values_of :: "ndarray \<Rightarrow> real list" where
  "values_of a = map (elems a) (indices (shape a))"

text \<open>
  \<open>(a - np.mean(a)) / (np.std(a) + 1e-8)\<close>. On an array without elements the mean and the
  standard deviation are NaN, but there is no element to which they are applied.
\<close>

definition standardize :: "ndarray \<Rightarrow> ndarray" where
  "standardize a =
     (let vs = values_of a;
          n = real (length vs);
          mean = sum_list vs / n;
          std = sqrt (sum_list (map (\<lambda>v. (v - mean) ^ 2) vs) / n)
      in a\<lparr>elems := \<lambda>idx. (elems a idx - mean) / (std + 1 / 10 ^ 8)\<rparr>)"

subsection \<open>Floats that may be NaN or infinite\<close>

text \<open>Addition of floats, and division of a float by a positive count, as \<open>np.mean\<close> uses them.\<close>

fun fadd :: "pyfloat \<Rightarrow> pyfloat \<Rightarrow> pyfloat" where
  "fadd NaN _ = NaN"
| "fadd _ NaN = NaN"
| "fadd (Finite a) (Finite b) = Finite (a + b)"
| "fadd PosInf NegInf = NaN"
| "fadd NegInf PosInf = NaN"
| "fadd PosInf _ = PosInf"
| "fadd _ PosInf = PosInf"
| "fadd NegInf _ = NegInf"
| "fadd _ NegInf = NegInf"

fun fdiv_count :: "pyfloat \<Rightarrow> nat \<Rightarrow> pyfloat" where
  "fdiv_count (Finite a) n = Finite (a / real n)"
| "fdiv_count v n = v"

definition fmean :: "pyfloat list \<Rightarrow> pyfloat" where
  "fmean vs = fdiv_count (foldl fadd (Finite 0) vs) (length vs)"

definition isnan :: "pyfloat \<Rightarrow> bool" where
  "isnan v = (v = NaN)"

subsection \<open>Scans, and what the sampler takes from its libraries\<close>

record annotation =
  malignancy :: "int option"
  centroid :: "pyfloat \<times> pyfloat \<times> pyfloat"

record scan =
  scan_id :: int
  to_volume :: ndarray
  cluster_annotations :: "annotation list list"

text \<open>
  Three things are not decided by the source and are parameters of the model:
  \<^item> \<open>rand k\<close>, which determines the \<open>k\<close>-th number drawn by \<open>np.random.randint\<close>;
  \<^item> \<open>resize\<close>, the function \<open>skimage.transform.resize(_, (32, 32), mode='constant',
    anti_aliasing=True)\<close>, which returns an image or raises;
  \<^item> \<open>cast_nonfinite\<close>, the integer that \<open>astype(int)\<close> produces for an infinity, which
    NumPy leaves to the platform (it warns and does not raise).
\<close>

record env =
  rand :: "nat \<Rightarrow> nat"
  resize :: "ndarray \<Rightarrow> py_error + ndarray"
  cast_nonfinite :: "pyfloat \<Rightarrow> int"

text \<open>
  \<open>np.random.randint(low, high)\<close> raises \<open>ValueError\<close> unless \<open>low < high\<close>, and
  otherwise draws from \<open>low, ..., high - 1\<close>; every such value is the draw for some
  \<open>rand\<close>.
\<close>

definition randint :: "env \<Rightarrow> nat \<Rightarrow> int \<Rightarrow> int \<Rightarrow> py_error + int" where
  "randint ev k low high =
     (if low < high then Inr (low + int (rand ev k) mod (high - low)) else Inl ValueError)"

text \<open>
  \<open>astype(int)\<close> after \<open>np.round\<close>, which rounds a half to the even neighbour: a
  finite value, taken to lie in the \<open>int64\<close> range, becomes the integer it was rounded to.
\<close>

definition astype_int :: "env \<Rightarrow> pyfloat \<Rightarrow> int" where
  "astype_int ev v = (case v of Finite r \<Rightarrow> round_half_even r | _ \<Rightarrow> cast_nonfinite ev v)"

record stats =
  total_scans :: nat
  total_nodules :: nat
  benign_nodules :: nat
  malignant_nodules :: nat
  discarded_nodules :: nat

record sampler_state =
  nodule_images :: "ndarray list"
  labels :: "int list"
  processed_scan_ids :: "int set"
  stats :: stats
  draws :: nat

text \<open>
  How the body of the \<open>try\<close> block ends for one nodule: with an image and a label to
  append, at one of the three \<open>continue\<close> statements, or with an exception, which the
  \<open>except\<close> clause catches.
\<close>

datatype outcome =
    Kept ndarray int
  | NoMalignancy
  | NanCentroid
  | PatchNot3D
  | Raised py_error

subsection \<open>The body of the \<open>try\<close> block\<close>

text \<open>
  The crop bounds and the slice. \<open>volume.shape[k]\<close> is read in the order of the source,
  so an array with fewer than three axes raises \<open>IndexError\<close> here. The coordinates
  are \<open>int64\<close> values in the source and mathematical integers here: wrap-around at the
  ends of the \<open>int64\<close> range is not modelled.
\<close>

definition crop :: "ndarray \<Rightarrow> int \<Rightarrow> int \<Rightarrow> int \<Rightarrow> int \<Rightarrow> py_error + ndarray" where
  "crop volume x y z size_drawn =
     (let x_start = max 0 (x - size_drawn div 2) in
      case shape_at volume 0 of Inl e \<Rightarrow> Inl e | Inr n0 \<Rightarrow>
     (let x_end = min (int n0) (x + size_drawn div 2);
          y_start = max 0 (y - size_drawn div 2) in
      case shape_at volume 1 of Inl e \<Rightarrow> Inl e | Inr n1 \<Rightarrow>
     (let y_end = min (int n1) (y + size_drawn div 2);
          z_start = max 0 (z - size_drawn div 2) in
      case shape_at volume 2 of Inl e \<Rightarrow> Inl e | Inr n2 \<Rightarrow>
     (let z_end = min (int n2) (z + size_drawn div 2)
      in slice3 volume (x_start, x_end) (y_start, y_end) (z_start, z_end)))))"

text \<open>
  \<open>np.mean([anno.centroid for anno in nodule], axis=0)\<close>, the test
  \<open>np.any(np.isnan(coords))\<close>, and \<open>np.round(coords).astype(int)\<close>.
\<close>

definition mean_centroid :: "annotation list \<Rightarrow> pyfloat \<times> pyfloat \<times> pyfloat" where
  "mean_centroid nodule =
     (fmean (map (\<lambda>anno. fst (centroid anno)) nodule),
      fmean (map (\<lambda>anno. fst (snd (centroid anno))) nodule),
      fmean (map (\<lambda>anno. snd (snd (centroid anno))) nodule))"

definition any_isnan :: "pyfloat \<times> pyfloat \<times> pyfloat \<Rightarrow> bool" where
  "any_isnan coords = (isnan (fst coords) \<or> isnan (fst (snd coords)) \<or> isnan (snd (snd coords)))"

definition round_astype_int :: "env \<Rightarrow> pyfloat \<times> pyfloat \<times> pyfloat \<Rightarrow> int \<times> int \<times> int" where
  "round_astype_int ev coords =
     (astype_int ev (fst coords), astype_int ev (fst (snd coords)), astype_int ev (snd (snd coords)))"

text \<open>
  \<open>try_body ev k volume nodule lo hi\<close> runs the statements of the \<open>try\<close> block for one
  nodule, \<open>k\<close> being the number of random draws made so far; it returns how the block
  ended and the number of draws made afterwards.
\<close>

definition try_body :: "env \<Rightarrow> nat \<Rightarrow> ndarray \<Rightarrow> annotation list \<Rightarrow> int \<Rightarrow> int \<Rightarrow> outcome \<times> nat" where
  "try_body ev k volume nodule min_nodule_size max_nodule_size =
     (let malignancy_scores = List.map_filter malignancy nodule in
      if malignancy_scores = [] then (NoMalignancy, k)
      else
        (let mean_malignancy = real_of_int (sum_list malignancy_scores) / real (length malignancy_scores);
             label = (if 3 \<le> mean_malignancy then 1 else 0);
             coords = mean_centroid nodule
         in if any_isnan coords then (NanCentroid, k)
            else
              (let (x, y, z) = round_astype_int ev coords in
               case randint ev k min_nodule_size max_nodule_size of
                 Inl e \<Rightarrow> (Raised e, k)
               | Inr size_drawn \<Rightarrow>
                   (case crop volume x y z size_drawn of
                      Inl e \<Rightarrow> (Raised e, Suc k)
                    | Inr nodule_patch \<Rightarrow>
                        if length (shape nodule_patch) < 3 then (PatchNot3D, Suc k)
                        else
                          (case index_axis2 nodule_patch (shape nodule_patch ! 2 div 2) of
                             Inl e \<Rightarrow> (Raised e, Suc k)
                           | Inr central_slice \<Rightarrow>
                               (case resize ev central_slice of
                                  Inl e \<Rightarrow> (Raised e, Suc k)
                                | Inr resized_slice \<Rightarrow>
                                    (Kept (standardize resized_slice) label, Suc k)))))))"

subsection \<open>The loops\<close>

text \<open>What one nodule adds to the lists and counters, after \<open>total_nodules\<close> was counted.\<close>

definition record_outcome :: "outcome \<Rightarrow> sampler_state \<Rightarrow> sampler_state" where
  "record_outcome out s =
     (case out of
        Kept img label \<Rightarrow>
          s\<lparr>nodule_images := nodule_images s @ [img],
            labels := labels s @ [label],
            stats := (if label = 1
                      then (stats s)\<lparr>malignant_nodules := malignant_nodules (stats s) + 1\<rparr>
                      else (stats s)\<lparr>benign_nodules := benign_nodules (stats s) + 1\<rparr>)\<rparr>
      | _ \<Rightarrow> s\<lparr>stats := (stats s)\<lparr>discarded_nodules := discarded_nodules (stats s) + 1\<rparr>\<rparr>)"

fun nodule_loop ::
  "env \<Rightarrow> ndarray \<Rightarrow> int \<Rightarrow> int \<Rightarrow> annotation list list \<Rightarrow> sampler_state \<Rightarrow> sampler_state" where
  "nodule_loop ev volume lo hi [] s = s"
| "nodule_loop ev volume lo hi (nodule # rest) s =
     (let s1 = s\<lparr>stats := (stats s)\<lparr>total_nodules := total_nodules (stats s) + 1\<rparr>\<rparr>;
          (out, k) = try_body ev (draws s1) volume nodule lo hi
      in nodule_loop ev volume lo hi rest (record_outcome out (s1\<lparr>draws := k\<rparr>)))"

text \<open>
  The loop over the scans. The source tests \<open>scan.id in processed_scan_ids\<close> and never
  adds to that set; the model does the same.
\<close>

fun scan_loop :: "env \<Rightarrow> int \<Rightarrow> int \<Rightarrow> scan list \<Rightarrow> sampler_state \<Rightarrow> sampler_state" where
  "scan_loop ev lo hi [] s = s"
| "scan_loop ev lo hi (scan # rest) s =
     (if scan_id scan \<in> processed_scan_ids s then scan_loop ev lo hi rest s
      else
        (let s1 = s\<lparr>stats := (stats s)\<lparr>total_scans := total_scans (stats s) + 1\<rparr>\<rparr>;
             volume = to_volume scan
         in scan_loop ev lo hi rest (nodule_loop ev volume lo hi (cluster_annotations scan) s1)))"

text \<open>\<open>scans[:max_scans]\<close>; a negative bound drops that many scans from the end.\<close>

definition py_prefix :: "'a list \<Rightarrow> int \<Rightarrow> 'a list" where
  "py_prefix xs m = take (slice_bound (length xs) m) xs"

definition initial_state :: sampler_state where
  "initial_state =
     \<lparr>nodule_images = [], labels = [], processed_scan_ids = {},
      stats = \<lparr>total_scans = 0, total_nodules = 0, benign_nodules = 0,
               malignant_nodules = 0, discarded_nodules = 0\<rparr>,
      draws = 0\<rparr>"

text \<open>
  \<open>scans\<close> is the result of \<open>pl.query(pl.Scan).all()\<close>. The function returns the images
  and the labels; the counters, which it prints, are returned with them here.
\<close>

definition load_nodule_data ::
  "env \<Rightarrow> scan list \<Rightarrow> int \<Rightarrow> int \<Rightarrow> int \<Rightarrow> ndarray list \<times> int list \<times> stats" where
  "load_nodule_data ev scans max_scans min_nodule_size max_nodule_size =
     (let s = scan_loop ev min_nodule_size max_nodule_size (py_prefix scans max_scans) initial_state
      in (nodule_images s, labels s, stats s))"

subsection \<open>Notions used to state the sampler's properties\<close>

text \<open>The label of a nodule: malignant (1) when the mean of its ratings is at least 3.\<close>

definition nodule_label :: "annotation list \<Rightarrow> int" where
  "nodule_label nodule =
     (let scores = List.map_filter malignancy nodule
      in if 3 \<le> real_of_int (sum_list scores) / real (length scores) then 1 else 0)"

definition scan_labels :: "scan list \<Rightarrow> int list" where
  "scan_labels scans = concat (map (\<lambda>s. map nodule_label (cluster_annotations s)) scans)"

text \<open>
  A nodule as the scenario of claim C7 describes it: some annotation carries a rating,
  every annotation's centroid is finite, and the crop lies well inside a three-dimensional
  volume: the centre voxel is at least 24 voxels from every face, 24 being the largest
  half-extent that the default crop sizes 10 to 49 give.
\<close>

definition valid_nodule :: "env \<Rightarrow> ndarray \<Rightarrow> annotation list \<Rightarrow> bool" where
  "valid_nodule ev volume nodule =
     ((\<exists>a \<in> set nodule. malignancy a \<noteq> None) \<and>
      (\<forall>a \<in> set nodule. is_finite (fst (centroid a)) \<and> is_finite (fst (snd (centroid a)))
                          \<and> is_finite (snd (snd (centroid a)))) \<and>
      (case (shape volume, round_astype_int ev (mean_centroid nodule)) of
         ([n0, n1, n2], (x, y, z)) \<Rightarrow>
           24 \<le> x \<and> x + 24 \<le> int n0 \<and> 24 \<le> y \<and> y + 24 \<le> int n1 \<and> 24 \<le> z \<and> z + 24 \<le> int n2
       | _ \<Rightarrow> False))"

text \<open>The resize function returns an image for every two-dimensional array that has pixels.\<close>

definition resize_total :: "env \<Rightarrow> bool" where
  "resize_total ev =
     (\<forall>a h w. shape a = [h, w] \<and> 0 < h \<and> 0 < w \<longrightarrow> (\<exists>r. resize ev a = Inr r))"


subsection \<open>Example inputs\<close>

definition env_example :: env where
  "env_example =
     \<lparr>rand = (\<lambda>k. 0),
      resize = (\<lambda>a. Inr \<lparr>shape = [32, 32], elems = (\<lambda>idx. 0)\<rparr>),
      cast_nonfinite = (\<lambda>v. 0)\<rparr>"

definition volume_example :: ndarray where
  "volume_example = \<lparr>shape = [100, 100, 100], elems = (\<lambda>idx. 0)\<rparr>"

definition nodule_example :: "int \<Rightarrow> annotation list" where
  "nodule_example rating =
     [\<lparr>malignancy = Some rating, centroid = (Finite 50, Finite 50, Finite 50)\<rparr>,
      \<lparr>malignancy = None, centroid = (Finite 51, Finite 49, Finite 50)\<rparr>]"

definition scan_example :: "int \<Rightarrow> int \<Rightarrow> scan" where
  "scan_example i rating =
     \<lparr>scan_id = i, to_volume = volume_example, cluster_annotations = [nodule_example rating]\<rparr>"

text \<open>A nodule far outside the example volume: its crop has no voxels.\<close>

definition outside_nodule_example :: "annotation list" where
  "outside_nodule_example =
     [\<lparr>malignancy = Some 4, centroid = (Finite 500, Finite 500, Finite 500)\<rparr>]"

section \<open>Early stopping: proofs\<close>

lemma flt_irrefl: "\<not> flt a a"
  by (cases a) auto

lemma flt_trans: "flt a b \<Longrightarrow> flt b c \<Longrightarrow> flt a c"
  by (cases a; cases b; cases c) auto

lemma after_epochs_0: "after_epochs w0 run 0 = init_state w0"
  by (simp add: after_epochs_def)

lemma after_epochs_Suc:
  "after_epochs w0 run (Suc m) = epoch_body run m (after_epochs w0 run m)"
  by (simp add: after_epochs_def)

lemma epoch_body_fields:
  "history_val_loss (epoch_body run e s) = history_val_loss s @ [snd (run e)]"
  "model_wts (epoch_body run e s) = fst (run e)"
  "best_loss (epoch_body run e s) =
     (if flt (snd (run e)) (best_loss s) then snd (run e) else best_loss s)"
  "best_model_wts (epoch_body run e s) =
     (if flt (snd (run e)) (best_loss s) then fst (run e) else best_model_wts s)"
  "epochs_no_improve (epoch_body run e s) =
     (if flt (snd (run e)) (best_loss s) then 0 else epochs_no_improve s + 1)"
  by (simp_all add: epoch_body_def Let_def split: prod.splits)

lemma epoch_loop_stop:
  "a \<le> N \<Longrightarrow>
   \<exists>n. a \<le> n \<and> n \<le> N \<and>
       epoch_loop P run [a..<N] (after_epochs w0 run a) = after_epochs w0 run n \<and>
       (\<forall>m. a < m \<and> m < n \<longrightarrow> epochs_no_improve (after_epochs w0 run m) < P) \<and>
       (n < N \<longrightarrow> a < n \<and> P \<le> epochs_no_improve (after_epochs w0 run n))"
proof (induction "N - a" arbitrary: a)
  case 0
  then have "a = N" by simp
  then show ?case by auto
next
  case (Suc k)
  then have lt: "a < N" and k: "k = N - Suc a" and le: "Suc a \<le> N" by auto
  have unf: "[a..<N] = a # [Suc a..<N]" using lt by (simp add: upt_conv_Cons)
  show ?case
  proof (cases "P \<le> epochs_no_improve (after_epochs w0 run (Suc a))")
    case True
    then have "epoch_loop P run [a..<N] (after_epochs w0 run a) = after_epochs w0 run (Suc a)"
      by (simp add: unf after_epochs_Suc Let_def)
    with True le show ?thesis
      by (intro exI[of _ "Suc a"]) auto
  next
    case False
    from Suc.hyps(1)[OF k le] obtain n where n:
      "Suc a \<le> n" "n \<le> N"
      "epoch_loop P run [Suc a..<N] (after_epochs w0 run (Suc a)) = after_epochs w0 run n"
      "\<forall>m. Suc a < m \<and> m < n \<longrightarrow> epochs_no_improve (after_epochs w0 run m) < P"
      "n < N \<longrightarrow> Suc a < n \<and> P \<le> epochs_no_improve (after_epochs w0 run n)"
      by blast
    have "epoch_loop P run [a..<N] (after_epochs w0 run a) = after_epochs w0 run n"
      using False n(3) by (simp add: unf after_epochs_Suc Let_def)
    moreover have "\<forall>m. a < m \<and> m < n \<longrightarrow> epochs_no_improve (after_epochs w0 run m) < P"
    proof (intro allI impI)
      fix m assume m: "a < m \<and> m < n"
      show "epochs_no_improve (after_epochs w0 run m) < P"
      proof (cases "m = Suc a")
        case True with False show ?thesis by simp
      next
        case False with m n(4) show ?thesis by auto
      qed
    qed
    ultimately show ?thesis using n(1,2,5)
      by (intro exI[of _ n]) auto
  qed
qed

lemma after_epochs_inv:
  "length (history_val_loss (after_epochs w0 run m)) = m \<and>
   history_val_loss (after_epochs w0 run m) = map (\<lambda>e. snd (run e)) [0..<m] \<and>
   (\<forall>e<m. \<not> flt (snd (run e)) (best_loss (after_epochs w0 run m))) \<and>
   (((\<forall>e<m. \<not> improves w0 run e) \<and> best_loss (after_epochs w0 run m) = PosInf \<and>
      best_model_wts (after_epochs w0 run m) = w0 \<and>
      epochs_no_improve (after_epochs w0 run m) = m) \<or>
    (\<exists>e<m. improves w0 run e \<and> (\<forall>e'. e < e' \<and> e' < m \<longrightarrow> \<not> improves w0 run e') \<and>
      best_loss (after_epochs w0 run m) = snd (run e) \<and>
      best_model_wts (after_epochs w0 run m) = fst (run e) \<and>
      epochs_no_improve (after_epochs w0 run m) + e + 1 = m))"
proof (induction m)
  case 0
  then show ?case by (simp add: after_epochs_0 init_state_def)
next
  case (Suc m)
  let ?s = "after_epochs w0 run m"
  show ?case
  proof (cases "flt (snd (run m)) (best_loss ?s)")
    case True
    then have imp: "improves w0 run m" by (simp add: improves_def)
    have "\<forall>e<Suc m. \<not> flt (snd (run e)) (snd (run m))"
    proof (intro allI impI)
      fix e assume "e < Suc m"
      show "\<not> flt (snd (run e)) (snd (run m))"
      proof (cases "e = m")
        case True then show ?thesis by (simp add: flt_irrefl)
      next
        case False
        with \<open>e < Suc m\<close> have "e < m" by simp
        with Suc have "\<not> flt (snd (run e)) (best_loss ?s)" by blast
        with True show ?thesis using flt_trans by blast
      qed
    qed
    with True imp Suc show ?thesis
      by (auto simp: after_epochs_Suc epoch_body_fields)
  next
    case False
    then have nimp: "\<not> improves w0 run m" by (simp add: improves_def)
    from Suc have d: "((\<forall>e<m. \<not> improves w0 run e) \<and> best_loss ?s = PosInf \<and>
      best_model_wts ?s = w0 \<and> epochs_no_improve ?s = m) \<or>
    (\<exists>e<m. improves w0 run e \<and> (\<forall>e'. e < e' \<and> e' < m \<longrightarrow> \<not> improves w0 run e') \<and>
      best_loss ?s = snd (run e) \<and> best_model_wts ?s = fst (run e) \<and>
      epochs_no_improve ?s + e + 1 = m)" by blast
    have a: "\<forall>e<Suc m. \<not> flt (snd (run e)) (best_loss ?s)"
      using Suc False by (auto simp: less_Suc_eq)
    from d show ?thesis
    proof
      assume h: "(\<forall>e<m. \<not> improves w0 run e) \<and> best_loss ?s = PosInf \<and>
        best_model_wts ?s = w0 \<and> epochs_no_improve ?s = m"
      with False nimp a Suc show ?thesis
        by (auto simp: after_epochs_Suc epoch_body_fields less_Suc_eq)
    next
      assume "\<exists>e<m. improves w0 run e \<and> (\<forall>e'. e < e' \<and> e' < m \<longrightarrow> \<not> improves w0 run e') \<and>
        best_loss ?s = snd (run e) \<and> best_model_wts ?s = fst (run e) \<and>
        epochs_no_improve ?s + e + 1 = m"
      then obtain e where e: "e < m" "improves w0 run e"
        "\<forall>e'. e < e' \<and> e' < m \<longrightarrow> \<not> improves w0 run e'"
        "best_loss ?s = snd (run e)" "best_model_wts ?s = fst (run e)"
        "epochs_no_improve ?s + e + 1 = m" by blast
      have "\<forall>e'. e < e' \<and> e' < Suc m \<longrightarrow> \<not> improves w0 run e'"
        using e(3) nimp by (auto simp: less_Suc_eq)
      with e False a Suc have "(\<exists>e<Suc m. improves w0 run e \<and> (\<forall>e'. e < e' \<and> e' < Suc m \<longrightarrow> \<not> improves w0 run e') \<and>
      best_loss (after_epochs w0 run (Suc m)) = snd (run e) \<and>
      best_model_wts (after_epochs w0 run (Suc m)) = fst (run e) \<and>
      epochs_no_improve (after_epochs w0 run (Suc m)) + e + 1 = Suc m)"
        by (intro exI[of _ e]) (auto simp: after_epochs_Suc epoch_body_fields)
      with False a Suc show ?thesis
        by (simp add: after_epochs_Suc epoch_body_fields)
    qed
  qed
qed


lemma train_stop:
  "\<exists>n\<le>N. train N P w0 run =
          (after_epochs w0 run n)\<lparr>model_wts := best_model_wts (after_epochs w0 run n)\<rparr> \<and>
        (\<forall>m. 0 < m \<and> m < n \<longrightarrow> epochs_no_improve (after_epochs w0 run m) < P) \<and>
        (n < N \<longrightarrow> 0 < n \<and> P \<le> epochs_no_improve (after_epochs w0 run n))"
proof -
  from epoch_loop_stop[of 0 N P run w0] obtain n where n: "n \<le> N"
    "epoch_loop P run [0..<N] (after_epochs w0 run 0) = after_epochs w0 run n"
    "\<forall>m. 0 < m \<and> m < n \<longrightarrow> epochs_no_improve (after_epochs w0 run m) < P"
    "n < N \<longrightarrow> 0 < n \<and> P \<le> epochs_no_improve (after_epochs w0 run n)"
    by auto
  from n(2) have "train N P w0 run =
      (after_epochs w0 run n)\<lparr>model_wts := best_model_wts (after_epochs w0 run n)\<rparr>"
    by (simp add: train_def after_epochs_0 Let_def)
  with n(1,3,4) show ?thesis by blast
qed

lemma counter_step:
  "epochs_no_improve (after_epochs w0 run (Suc m)) \<le> Suc (epochs_no_improve (after_epochs w0 run m))"
  by (simp add: after_epochs_Suc epoch_body_fields)

text \<open>
  Claim C1. Let \<open>n\<close> be the number of epochs that \<open>main\<close> completes, for any
  validation losses and weights the epochs produce. The loop keeps the lowest validation
  loss seen: no loss of a completed epoch is below \<open>best_loss\<close>. A non-improving epoch
  adds one to \<open>epochs_no_improve\<close>, an improving epoch resets it and snapshots the
  weights, so that at the end the counter is the number of epochs since the last improving
  epoch \<open>e\<close>, and the weights loaded into the model are those of epoch \<open>e\<close> (the
  initial weights when no epoch improved), not those of the last completed epoch. The
  counter stays below the patience 15 after every earlier epoch; the loop ends before epoch
  100 only with the counter equal to 15, so training halts exactly at the first epoch
  where the counter reaches the patience.
\<close>

theorem early_stopping:
  fixes w0 :: 'w and run_epoch :: "nat \<Rightarrow> 'w \<times> pyfloat"
  defines "final \<equiv> main_train w0 run_epoch"
  defines "n \<equiv> length (history_val_loss final)"
  shows "n \<le> 100 \<and>
     history_val_loss final = map (\<lambda>e. snd (run_epoch e)) [0..<n] \<and>
     best_loss final = best_loss (after_epochs w0 run_epoch n) \<and>
     epochs_no_improve final = epochs_no_improve (after_epochs w0 run_epoch n) \<and>
     (\<forall>m. 0 < m \<and> m < n \<longrightarrow> epochs_no_improve (after_epochs w0 run_epoch m) < 15) \<and>
     (n < 100 \<longrightarrow> epochs_no_improve final = 15) \<and>
     epochs_no_improve final \<le> 15 \<and>
     (\<forall>e<n. \<not> flt (snd (run_epoch e)) (best_loss final)) \<and>
     model_wts final = best_model_wts final \<and>
     (((\<forall>e<n. \<not> improves w0 run_epoch e) \<and> best_loss final = PosInf \<and>
        model_wts final = w0 \<and> epochs_no_improve final = n) \<or>
      (\<exists>e<n. improves w0 run_epoch e \<and>
         (\<forall>e'. e < e' \<and> e' < n \<longrightarrow> \<not> improves w0 run_epoch e') \<and>
         best_loss final = snd (run_epoch e) \<and>
         model_wts final = fst (run_epoch e) \<and>
         epochs_no_improve final + e + 1 = n))"
proof -
  from train_stop[of num_epochs patience w0 run_epoch] obtain k where k: "k \<le> 100"
    "final = (after_epochs w0 run_epoch k)\<lparr>model_wts := best_model_wts (after_epochs w0 run_epoch k)\<rparr>"
    "\<forall>m. 0 < m \<and> m < k \<longrightarrow> epochs_no_improve (after_epochs w0 run_epoch m) < 15"
    "k < 100 \<longrightarrow> 0 < k \<and> 15 \<le> epochs_no_improve (after_epochs w0 run_epoch k)"
    unfolding final_def main_train_def num_epochs_def patience_def by blast
  let ?s = "after_epochs w0 run_epoch k"
  note inv = after_epochs_inv[of w0 run_epoch k]
  have nk: "n = k" using k(2) inv by (simp add: n_def)
  have f: "history_val_loss final = history_val_loss ?s" "best_loss final = best_loss ?s"
    "epochs_no_improve final = epochs_no_improve ?s" "model_wts final = best_model_wts ?s"
    "best_model_wts final = best_model_wts ?s"
    using k(2) by simp_all
  have le: "epochs_no_improve ?s \<le> 15"
  proof (cases k)
    case 0
    then show ?thesis by (simp add: after_epochs_0 init_state_def)
  next
    case (Suc j)
    show ?thesis
    proof (cases j)
      case 0
      with Suc counter_step[of w0 run_epoch 0] show ?thesis
        by (simp add: after_epochs_0 init_state_def)
    next
      case (Suc i)
      with \<open>k = Suc j\<close> k(3) have "epochs_no_improve (after_epochs w0 run_epoch j) < 15" by simp
      with counter_step[of w0 run_epoch j] \<open>k = Suc j\<close> show ?thesis by simp
    qed
  qed
  have eq: "k < 100 \<longrightarrow> epochs_no_improve ?s = 15" using le k(4) by auto
  show ?thesis
    unfolding nk f using k(1,3) le eq inv by simp
qed

text \<open>
  A run of identical losses: epoch 0 improves on infinity, the next fifteen epochs do not,
  training stops after 16 epochs and returns the weights of epoch 0.
\<close>

theorem early_stopping_witness:
  "length (history_val_loss (main_train (0::nat) (\<lambda>e. (Suc e, Finite 1)))) = 16 \<and>
   (16::nat) < 100 \<and>
   epochs_no_improve (main_train (0::nat) (\<lambda>e. (Suc e, Finite 1))) = 15 \<and>
   model_wts (main_train (0::nat) (\<lambda>e. (Suc e, Finite 1))) = 1"
proof -
  let ?run = "\<lambda>e::nat. (Suc e, Finite 1)"
  have n: "length (history_val_loss (main_train (0::nat) ?run)) = 16"
    by (simp add: main_train_def train_def num_epochs_def patience_def init_state_def
        epoch_body_def upt_conv_Cons Let_def)
  have w: "model_wts (main_train (0::nat) ?run) = 1"
    by (simp add: main_train_def train_def num_epochs_def patience_def init_state_def
        epoch_body_def upt_conv_Cons Let_def)
  from early_stopping [of 0 ?run] have
    "length (history_val_loss (main_train (0::nat) ?run)) < 100 \<longrightarrow>
     epochs_no_improve (main_train (0::nat) ?run) = 15"
    by blast
  with n w show ?thesis by simp
qed

section \<open>Float32 rounding: evaluation\<close>





























section \<open>Squashing: proofs\<close>














section \<open>Dynamic routing: proofs\<close>

















section \<open>Margin loss: proofs\<close>

lemma bidx_less: "i < n \<Longrightarrow> bidx n i = i"
  by (auto simp: bidx_def)

lemma one_hot_ok:
  assumes "y \<noteq> []" "\<forall>l\<in>set y. 0 \<le> l \<and> l < int C"
  shows "one_hot y C = Inr \<lparr>size0 = length y, size1 = C, at2 = (\<lambda>i c. if y ! i = int c then 1 else 0)\<rparr>"
  using assms by (auto simp: one_hot_def)

lemma loss_elem:
  "(relu (9 / 10 - clamp 0 1 p)) ^ 2 * (if t then 1 else 0)
     + (relu (clamp 0 1 p - 1 / 10)) ^ 2 * (1 - (if t then 1 else 0)) / 2
   = element_loss t p"
  by (simp add: element_loss_def relu_def clamp_def Let_def max_def min_def)

lemma pick_weight:
  assumes "0 \<le> l" "l < int C"
  shows "(\<Sum>c < C. (if l = int c then 1 else 0) * (cw ! c)) = (cw ! nat l :: real)"
proof -
  have "(\<Sum>c < C. (if l = int c then 1 else 0) * (cw ! c)) = (\<Sum>c \<in> {..<C}. if c = nat l then cw ! c else 0)"
    using assms by (intro sum.cong) auto
  also have "\<dots> = cw ! nat l"
  proof -
    have "nat l < C" using assms by simp
    then show ?thesis by (simp add: sum.delta)
  qed
  finally show ?thesis .
qed

lemma margin_loss_value:
  assumes len: "length y = size0 p" and B: "0 < size0 p"
    and lab: "\<forall>l\<in>set y. 0 \<le> l \<and> l < int (size1 p)"
    and w: "\<forall>cw. w = Some cw \<longrightarrow> length cw = size1 p"
  shows "margin_loss y p (9 / 10) (1 / 10) (1 / 2) w = Inr (Finite (margin_loss_spec y p w))"
proof -
  have ne: "y \<noteq> []" using len B by auto
  have C: "0 < size1 p" using lab ne by (cases y) auto
  note oh = one_hot_ok[OF ne lab]
  show ?thesis
  proof (cases w)
    case None
    then show ?thesis using B C len
      by (simp add: margin_loss_def oh Let_def margin_loss_spec_def mean_of_def loss_elem
          broadcast_dim_def bidx_less cong: sum.cong_simp)
  next
    case (Some cw)
    with w have lc: "length cw = size1 p" by simp
    have pw: "\<And>i. i < size0 p \<Longrightarrow>
        (\<Sum>c < size1 p. (if y ! i = int c then 1 else 0) * (cw ! c)) = cw ! nat (y ! i)"
      using lab len by (intro pick_weight) auto
    have "(\<Sum>i < size0 p. (\<Sum>c < size1 p. element_loss (y ! i = int c) (at2 p i c)) / real (size1 p)
              * (\<Sum>c < size1 p. (if y ! i = int c then 1 else 0) * (cw ! c)))
        = (\<Sum>i < size0 p. (\<Sum>c < size1 p. element_loss (y ! i = int c) (at2 p i c)) / real (size1 p)
              * cw ! nat (y ! i))"
      by (intro sum.cong) (auto simp: pw)
    then show ?thesis using B C len lc Some
      by (simp add: margin_loss_def oh Let_def margin_loss_spec_def mean_of_def loss_elem
          broadcast_dim_def bidx_less cong: sum.cong_simp)
  qed
qed


text \<open>
  Claim C2. For every label vector \<open>y\<close>, prediction matrix \<open>p\<close> and optional class
  weights \<open>w\<close> of matching shapes (one label per row of \<open>p\<close>, at least one row, labels
  that are column indices, one weight per column), \<open>margin_loss\<close> with its default margins
  returns the value the specification describes, which \<open>margin_loss_spec\<close> writes out
  without the clamp and hinge functions of the code: predictions brought into [0, 1],
  element loss \<open>relu(0.9 - p)\<^sup>2\<close> on the true class and \<open>0.5 * relu(p - 0.1)\<^sup>2\<close> on a
  false class, then with weights the batch mean of the per-sample class means scaled by
  the weight of the sample's true class, and without weights the mean over all elements.
\<close>

theorem margin_loss_matches_spec:
  assumes "length y = size0 p" and "0 < size0 p"
    and "\<forall>l\<in>set y. 0 \<le> l \<and> l < int (size1 p)"
    and "\<forall>cw. w = Some cw \<longrightarrow> length cw = size1 p"
  shows "margin_loss y p (9 / 10) (1 / 10) (1 / 2) w = Inr (Finite (margin_loss_spec y p w))"
  using assms by (rule margin_loss_value)

text \<open>
  Two samples, two classes, class weights 2 and 4, and predictions that are clamped from
  both sides and lie on either side of both margins. Sample 0 of class 0: -0.2 is clamped
  to 0 and costs \<open>0.9\<^sup>2\<close>, 1.5 is clamped to 1 and costs \<open>0.5 * 0.9\<^sup>2\<close>; sample 1 of class 1
  costs nothing. The weighted loss is 243/400 and the unweighted loss 243/800.
\<close>

theorem margin_loss_matches_spec_witness:
  "length [0, 1 :: int] = size0 y_pred_example \<and> 0 < size0 y_pred_example \<and>
   set [0, 1 :: int] \<subseteq> {0 ..< int (size1 y_pred_example)} \<and>
   length [2, 4 :: real] = size1 y_pred_example \<and>
   margin_loss [0, 1] y_pred_example (9 / 10) (1 / 10) (1 / 2) (Some [2, 4]) =
     Inr (Finite (243 / 400)) \<and>
   margin_loss [0, 1] y_pred_example (9 / 10) (1 / 10) (1 / 2) None =
     Inr (Finite (243 / 800))"
proof -
  have a: "length [0, 1 :: int] = size0 y_pred_example" "0 < size0 y_pred_example"
    "\<forall>l\<in>set [0, 1 :: int]. 0 \<le> l \<and> l < int (size1 y_pred_example)"
    by (simp_all add: y_pred_example_def)
  have w: "\<forall>cw. Some [2, 4 :: real] = Some cw \<longrightarrow> length cw = size1 y_pred_example"
    "\<forall>cw. (None :: real list option) = Some cw \<longrightarrow> length cw = size1 y_pred_example"
    by (simp_all add: y_pred_example_def)
  have b: "set [0, 1 :: int] \<subseteq> {0 ..< int (size1 y_pred_example)}"
    "length [2, 4 :: real] = size1 y_pred_example"
    by (simp_all add: y_pred_example_def)
  have v: "margin_loss_spec [0, 1] y_pred_example (Some [2, 4]) = 243 / 400"
    "margin_loss_spec [0, 1] y_pred_example None = 243 / 800"
    by (simp_all add: margin_loss_spec_def element_loss_def y_pred_example_def Let_def
        lessThan_Suc numeral_2_eq_2)
  from margin_loss_matches_spec [OF a w(1)] margin_loss_matches_spec [OF a w(2)] a(1,2) b v
  show ?thesis by simp
qed






section \<open>The sampler: the shape of the crop\<close>

lemma slice3_shape:
  "slice3 a r0 r1 r2 = Inr patch \<Longrightarrow> length (shape patch) = length (shape a) \<and> 3 \<le> length (shape a)"
  by (auto simp: slice3_def Let_def split: list.splits prod.splits)

lemma slice3_returns:
  "3 \<le> length (shape a) \<Longrightarrow> \<exists>patch. slice3 a r0 r1 r2 = Inr patch"
  by (auto simp: slice3_def Let_def split: list.splits prod.splits)

lemma crop_shape:
  "crop volume x y z sz = Inr patch \<Longrightarrow> length (shape patch) = length (shape volume) \<and> 3 \<le> length (shape volume)"
  by (auto simp: crop_def Let_def shape_at_def dest: slice3_shape split: sum.splits if_splits)

lemma crop_returns:
  "3 \<le> length (shape volume) \<Longrightarrow> \<exists>patch. crop volume x y z sz = Inr patch"
  using slice3_returns[of volume] by (auto simp: crop_def Let_def shape_at_def)

lemma try_body_not_PatchNot3D:
  "fst (try_body ev k volume nodule lo hi) \<noteq> PatchNot3D"
  by (auto simp: try_body_def Let_def dest: crop_shape split: sum.splits prod.splits)

lemma try_body_after_checks:
  assumes "List.map_filter malignancy nodule \<noteq> []" "\<not> any_isnan (mean_centroid nodule)"
  shows "(\<exists>img label. fst (try_body ev k volume nodule lo hi) = Kept img label) \<or>
         (\<exists>e. fst (try_body ev k volume nodule lo hi) = Raised e)"
  using assms
  by (auto simp: try_body_def Let_def dest: crop_shape split: sum.splits prod.splits)

lemma index_axis2_empty:
  "length (shape a) = 3 \<Longrightarrow> shape a ! 2 = 0 \<Longrightarrow> index_axis2 a k = Inl IndexError"
  by (auto simp: index_axis2_def split: list.splits)


text \<open>
  Claim C10. For every three-dimensional volume and all bounds, the three-slice
  expression returns an array with exactly three axes (of any lengths), and so does the
  crop with the clipped bounds of the source. The branch taken when the patch has fewer
  than three axes is therefore never the way the \<open>try\<close> block ends; a nodule that
  passed the rating and NaN checks is either kept or ends in the exception handler.
\<close>

theorem patch_always_three_dimensional:
  assumes "length (shape volume) = 3"
  shows "(\<exists>patch. slice3 volume r0 r1 r2 = Inr patch \<and> length (shape patch) = 3) \<and>
         (\<exists>patch. crop volume x y z sz = Inr patch \<and> length (shape patch) = 3) \<and>
         fst (try_body ev k volume nodule lo hi) \<noteq> PatchNot3D \<and>
         (List.map_filter malignancy nodule \<noteq> [] \<and> \<not> any_isnan (mean_centroid nodule) \<longrightarrow>
            (\<exists>img label. fst (try_body ev k volume nodule lo hi) = Kept img label) \<or>
            (\<exists>e. fst (try_body ev k volume nodule lo hi) = Raised e))"
proof -
  have 3: "3 \<le> length (shape volume)" using assms by simp
  from slice3_returns[OF 3, of r0 r1 r2] obtain p1 where p1: "slice3 volume r0 r1 r2 = Inr p1" by blast
  from crop_returns[OF 3, of x y z sz] obtain p2 where p2: "crop volume x y z sz = Inr p2" by blast
  show ?thesis
    using p1 p2 slice3_shape[OF p1] crop_shape[OF p2] assms
      try_body_not_PatchNot3D[of ev k volume nodule lo hi]
      try_body_after_checks[of nodule ev k volume lo hi]
    by auto
qed

lemma outside_example:
  "try_body env_example 0 volume_example outside_nodule_example 10 50 = (Raised IndexError, 1)"
  by (simp add: try_body_def env_example_def volume_example_def outside_nodule_example_def
      List.map_filter_simps mean_centroid_def fmean_def any_isnan_def isnan_def
      round_astype_int_def astype_int_def round_half_even_def randint_def crop_def shape_at_def
      slice3_def py_slice_def slice_bound_def index_axis2_def Let_def)

text \<open>
  A nodule centred outside a 100 x 100 x 100 volume: the crop is empty, and indexing its
  central slice raises \<open>IndexError\<close>.
\<close>

theorem patch_always_three_dimensional_witness:
  "length (shape volume_example) = 3 \<and>
   List.map_filter malignancy outside_nodule_example \<noteq> [] \<and>
   \<not> any_isnan (mean_centroid outside_nodule_example) \<and>
   fst (try_body env_example 0 volume_example outside_nodule_example 10 50) \<noteq> PatchNot3D \<and>
   fst (try_body env_example 0 volume_example outside_nodule_example 10 50) = Raised IndexError"
proof -
  have a: "length (shape volume_example) = 3" by (simp add: volume_example_def)
  have b: "List.map_filter malignancy outside_nodule_example \<noteq> []"
    "\<not> any_isnan (mean_centroid outside_nodule_example)"
    by (simp_all add: outside_nodule_example_def List.map_filter_simps mean_centroid_def
        fmean_def any_isnan_def isnan_def)
  from patch_always_three_dimensional [OF a, of _ _ _ _ _ _ _ env_example 0 outside_nodule_example 10 50]
  have "fst (try_body env_example 0 volume_example outside_nodule_example 10 50) \<noteq> PatchNot3D"
    by blast
  with a b outside_example show ?thesis by simp
qed

section \<open>The sampler: valid nodules and the scan loop\<close>

lemma foldl_fadd_finite:
  "\<forall>v\<in>set vs. is_finite v \<Longrightarrow> \<exists>r. foldl fadd (Finite a) vs = Finite r"
proof (induction vs arbitrary: a)
  case Nil
  then show ?case by simp
next
  case (Cons v vs)
  then obtain b where "v = Finite b" by (cases v) (auto simp: is_finite_def)
  with Cons show ?case by simp
qed

lemma fmean_finite: "\<forall>v\<in>set vs. is_finite v \<Longrightarrow> \<exists>r. fmean vs = Finite r"
  using foldl_fadd_finite[of vs 0] by (auto simp: fmean_def)

lemma mean_centroid_finite:
  assumes "\<forall>a \<in> set nodule. is_finite (fst (centroid a)) \<and> is_finite (fst (snd (centroid a)))
                          \<and> is_finite (snd (snd (centroid a)))"
  shows "\<exists>cx cy cz. mean_centroid nodule = (Finite cx, Finite cy, Finite cz)"
proof -
  have "\<exists>r. fmean (map (\<lambda>anno. fst (centroid anno)) nodule) = Finite r"
    "\<exists>r. fmean (map (\<lambda>anno. fst (snd (centroid anno))) nodule) = Finite r"
    "\<exists>r. fmean (map (\<lambda>anno. snd (snd (centroid anno))) nodule) = Finite r"
    using assms by (auto intro!: fmean_finite)
  then show ?thesis by (auto simp: mean_centroid_def)
qed

lemma map_filter_nonempty:
  "\<exists>a \<in> set nodule. malignancy a \<noteq> None \<Longrightarrow> List.map_filter malignancy nodule \<noteq> []"
  by (induction nodule) (auto simp: List.map_filter_simps split: option.splits)

lemma py_slice_inside:
  assumes "0 \<le> h" "h \<le> x" "x + h \<le> int n"
  shows "py_slice n (max 0 (x - h)) (min (int n) (x + h)) = (nat (x - h), nat (2 * h))"
  using assms by (auto simp: py_slice_def slice_bound_def max_def min_def)

lemma crop_inside:
  assumes sh: "shape volume = [n0, n1, n2]"
    and h: "0 \<le> sz div 2"
    and x: "sz div 2 \<le> x" "x + sz div 2 \<le> int n0"
    and y: "sz div 2 \<le> y" "y + sz div 2 \<le> int n1"
    and z: "sz div 2 \<le> z" "z + sz div 2 \<le> int n2"
  shows "\<exists>patch. crop volume x y z sz = Inr patch \<and>
           shape patch = [nat (2 * (sz div 2)), nat (2 * (sz div 2)), nat (2 * (sz div 2))]"
  using py_slice_inside[OF h x] py_slice_inside[OF h y] py_slice_inside[OF h z]
  by (simp add: crop_def Let_def shape_at_def sh slice3_def)

lemma index_axis2_centre:
  assumes "shape patch = [m, m, m]" "0 < m"
  shows "\<exists>c. index_axis2 patch (shape patch ! 2 div 2) = Inr c \<and> shape c = [m, m]"
  using assms by (simp add: index_axis2_def)

lemma randint_range:
  "lo < hi \<Longrightarrow> \<exists>sz. randint ev k lo hi = Inr sz \<and> lo \<le> sz \<and> sz < hi"
proof -
  assume "lo < hi"
  then have "0 < hi - lo" by simp
  then have "0 \<le> int (rand ev k) mod (hi - lo)" "int (rand ev k) mod (hi - lo) < hi - lo"
    by (rule pos_mod_sign, rule pos_mod_bound)
  with \<open>lo < hi\<close> show ?thesis by (simp add: randint_def)
qed

lemma try_body_valid:
  assumes v: "valid_nodule ev volume nodule" and r: "resize_total ev"
  shows "\<exists>img. try_body ev k volume nodule 10 50 = (Kept img (nodule_label nodule), Suc k)"
proof -
  from v have "\<exists>a \<in> set nodule. malignancy a \<noteq> None"
    unfolding valid_nodule_def by blast
  then have ms: "List.map_filter malignancy nodule \<noteq> []"
    by (rule map_filter_nonempty)
  from v obtain cx cy cz where mc: "mean_centroid nodule = (Finite cx, Finite cy, Finite cz)"
    using mean_centroid_finite[of nodule] unfolding valid_nodule_def by blast
  then have nn: "\<not> any_isnan (mean_centroid nodule)"
    by (simp add: any_isnan_def isnan_def)
  obtain x y z where xyz: "round_astype_int ev (mean_centroid nodule) = (x, y, z)"
    by (cases "round_astype_int ev (mean_centroid nodule)")
  from v xyz obtain n0 n1 n2 where sh: "shape volume = [n0, n1, n2]"
    and b: "24 \<le> x" "x + 24 \<le> int n0" "24 \<le> y" "y + 24 \<le> int n1" "24 \<le> z" "z + 24 \<le> int n2"
    by (auto simp: valid_nodule_def split: list.splits)
  from randint_range[of 10 50 ev k] obtain sz where
    sz: "randint ev k 10 50 = Inr sz" "10 \<le> sz" "sz < 50" by auto
  then have h: "5 \<le> sz div 2" "sz div 2 \<le> 24" by auto
  have "0 \<le> sz div 2" "sz div 2 \<le> x" "x + sz div 2 \<le> int n0"
    "sz div 2 \<le> y" "y + sz div 2 \<le> int n1" "sz div 2 \<le> z" "z + sz div 2 \<le> int n2"
    using h b by linarith+
  from crop_inside[OF sh this] obtain patch where
    p: "crop volume x y z sz = Inr patch"
       "shape patch = [nat (2 * (sz div 2)), nat (2 * (sz div 2)), nat (2 * (sz div 2))]"
    by auto
  have m: "0 < nat (2 * (sz div 2))" using h by simp
  from index_axis2_centre[OF p(2) m] obtain c where
    c: "index_axis2 patch (shape patch ! 2 div 2) = Inr c"
       "shape c = [nat (2 * (sz div 2)), nat (2 * (sz div 2))]" by blast
  from r c(2) m obtain img where img: "resize ev c = Inr img"
    unfolding resize_total_def by blast
  have "try_body ev k volume nodule 10 50 = (Kept (standardize img) (nodule_label nodule), Suc k)"
    using ms nn xyz sz(1) p c(1) img
    by (simp add: try_body_def Let_def nodule_label_def)
  then show ?thesis by blast
qed


lemma nodule_label_cases: "nodule_label nodule = 0 \<or> nodule_label nodule = 1"
  by (simp add: nodule_label_def Let_def)

lemma nodule_loop_valid:
  assumes r: "resize_total ev"
  shows "\<forall>nodule \<in> set nodules. valid_nodule ev volume nodule \<Longrightarrow>
    labels (nodule_loop ev volume 10 50 nodules s) = labels s @ map nodule_label nodules \<and>
    length (nodule_images (nodule_loop ev volume 10 50 nodules s)) =
      length (nodule_images s) + length nodules \<and>
    processed_scan_ids (nodule_loop ev volume 10 50 nodules s) = processed_scan_ids s \<and>
    total_scans (stats (nodule_loop ev volume 10 50 nodules s)) = total_scans (stats s) \<and>
    total_nodules (stats (nodule_loop ev volume 10 50 nodules s)) =
      total_nodules (stats s) + length nodules \<and>
    benign_nodules (stats (nodule_loop ev volume 10 50 nodules s)) =
      benign_nodules (stats s) + count_list (map nodule_label nodules) 0 \<and>
    malignant_nodules (stats (nodule_loop ev volume 10 50 nodules s)) =
      malignant_nodules (stats s) + count_list (map nodule_label nodules) 1 \<and>
    discarded_nodules (stats (nodule_loop ev volume 10 50 nodules s)) = discarded_nodules (stats s)"
proof (induction nodules arbitrary: s)
  case Nil
  show ?case by simp
next
  case (Cons nodule rest)
  let ?s1 = "s\<lparr>stats := (stats s)\<lparr>total_nodules := total_nodules (stats s) + 1\<rparr>\<rparr>"
  from Cons.prems have v: "valid_nodule ev volume nodule" by simp
  from try_body_valid[OF v r, of "draws ?s1"] obtain img where
    t: "try_body ev (draws ?s1) volume nodule 10 50 = (Kept img (nodule_label nodule), Suc (draws ?s1))"
    by blast
  let ?s2 = "record_outcome (Kept img (nodule_label nodule)) (?s1\<lparr>draws := Suc (draws ?s1)\<rparr>)"
  have step: "nodule_loop ev volume 10 50 (nodule # rest) s = nodule_loop ev volume 10 50 rest ?s2"
    using t by (simp add: Let_def)
  have f: "labels ?s2 = labels s @ [nodule_label nodule]"
    "length (nodule_images ?s2) = length (nodule_images s) + 1"
    "processed_scan_ids ?s2 = processed_scan_ids s"
    "total_scans (stats ?s2) = total_scans (stats s)"
    "total_nodules (stats ?s2) = total_nodules (stats s) + 1"
    "benign_nodules (stats ?s2) = benign_nodules (stats s) + (if nodule_label nodule = 0 then 1 else 0)"
    "malignant_nodules (stats ?s2) = malignant_nodules (stats s) + (if nodule_label nodule = 1 then 1 else 0)"
    "discarded_nodules (stats ?s2) = discarded_nodules (stats s)"
    using nodule_label_cases[of nodule] by (auto simp: record_outcome_def)
  from Cons.prems have "\<forall>nodule \<in> set rest. valid_nodule ev volume nodule" by simp
  from Cons.IH[OF this, of ?s2] show ?case
    unfolding step f by simp
qed

lemma scan_loop_valid:
  assumes r: "resize_total ev"
  shows "\<forall>sc \<in> set scans. \<forall>nodule \<in> set (cluster_annotations sc). valid_nodule ev (to_volume sc) nodule \<Longrightarrow>
    processed_scan_ids s = {} \<Longrightarrow>
    labels (scan_loop ev 10 50 scans s) = labels s @ scan_labels scans \<and>
    length (nodule_images (scan_loop ev 10 50 scans s)) =
      length (nodule_images s) + length (scan_labels scans) \<and>
    total_scans (stats (scan_loop ev 10 50 scans s)) = total_scans (stats s) + length scans \<and>
    total_nodules (stats (scan_loop ev 10 50 scans s)) =
      total_nodules (stats s) + length (scan_labels scans) \<and>
    benign_nodules (stats (scan_loop ev 10 50 scans s)) =
      benign_nodules (stats s) + count_list (scan_labels scans) 0 \<and>
    malignant_nodules (stats (scan_loop ev 10 50 scans s)) =
      malignant_nodules (stats s) + count_list (scan_labels scans) 1 \<and>
    discarded_nodules (stats (scan_loop ev 10 50 scans s)) = discarded_nodules (stats s)"
proof (induction scans arbitrary: s)
  case Nil
  show ?case by (simp add: scan_labels_def)
next
  case (Cons sc rest)
  let ?s1 = "s\<lparr>stats := (stats s)\<lparr>total_scans := total_scans (stats s) + 1\<rparr>\<rparr>"
  let ?s2 = "nodule_loop ev (to_volume sc) 10 50 (cluster_annotations sc) ?s1"
  have step: "scan_loop ev 10 50 (sc # rest) s = scan_loop ev 10 50 rest ?s2"
    using Cons.prems(2) by (simp add: Let_def)
  from Cons.prems(1) have v: "\<forall>nodule \<in> set (cluster_annotations sc). valid_nodule ev (to_volume sc) nodule"
    by simp
  note n = nodule_loop_valid[OF r v, of ?s1]
  have p: "processed_scan_ids ?s2 = {}" using n Cons.prems(2) by simp
  from Cons.prems(1) have "\<forall>sc \<in> set rest. \<forall>nodule \<in> set (cluster_annotations sc). valid_nodule ev (to_volume sc) nodule"
    by simp
  from Cons.IH[OF this p] n show ?case
    unfolding step by (simp add: scan_labels_def)
qed

lemma count_list_append: "count_list (xs @ ys) a = count_list xs a + count_list ys a"
  by (induction xs) auto

lemma load_nodule_data_valid:
  assumes r: "resize_total ev"
    and v: "\<forall>sc \<in> set scans. \<forall>nodule \<in> set (cluster_annotations sc). valid_nodule ev (to_volume sc) nodule"
    and m: "int (length scans) \<le> max_scans"
  shows "\<exists>images st. load_nodule_data ev scans max_scans 10 50 = (images, scan_labels scans, st) \<and>
     length images = length (scan_labels scans) \<and>
     total_scans st = length scans \<and> total_nodules st = length (scan_labels scans) \<and>
     benign_nodules st = count_list (scan_labels scans) 0 \<and>
     malignant_nodules st = count_list (scan_labels scans) 1 \<and>
     discarded_nodules st = 0"
proof -
  have pre: "py_prefix scans max_scans = scans"
    using m by (auto simp: py_prefix_def slice_bound_def)
  have i: "processed_scan_ids initial_state = {}" by (simp add: initial_state_def)
  from scan_loop_valid[OF r v i] show ?thesis
    by (simp add: load_nodule_data_def pre Let_def initial_state_def)
qed


text \<open>
  Claim C7. Four scans with distinct identifiers, each with exactly one nodule; every
  nodule has a rating, finite centroids and a crop well inside its volume; two nodules
  have a mean rating below 3 and two a mean rating of at least 3; the resize function
  returns for every image that has pixels. Then \<open>load_nodule_data\<close> with its default
  arguments returns four images and the four labels in scan order, two benign and two
  malignant, and counts four scans, four nodules, two benign, two malignant and no
  discarded nodule.
\<close>

theorem four_scans_scenario:
  assumes "length scans = 4" and "distinct (map scan_id scans)"
    and "\<forall>sc \<in> set scans. \<exists>nodule. cluster_annotations sc = [nodule] \<and>
            valid_nodule ev (to_volume sc) nodule"
    and "count_list (scan_labels scans) 0 = 2" and "count_list (scan_labels scans) 1 = 2"
    and "resize_total ev"
  shows "\<exists>images lbls st. load_nodule_data ev scans 400 10 50 = (images, lbls, st) \<and>
     length images = 4 \<and> length lbls = 4 \<and> lbls = scan_labels scans \<and>
     count_list lbls 0 = 2 \<and> count_list lbls 1 = 2 \<and>
     total_scans st = 4 \<and> total_nodules st = 4 \<and>
     benign_nodules st = 2 \<and> malignant_nodules st = 2 \<and> discarded_nodules st = 0"
proof -
  have v: "\<forall>sc \<in> set scans. \<forall>nodule \<in> set (cluster_annotations sc). valid_nodule ev (to_volume sc) nodule"
    using assms(3) by fastforce
  have "\<forall>sc \<in> set scans. length (cluster_annotations sc) = 1"
    using assms(3) by fastforce
  then have "length (scan_labels scans) = length scans"
    unfolding scan_labels_def by (induction scans) auto
  then have l: "length (scan_labels scans) = 4" using assms(1) by simp
  have m: "int (length scans) \<le> 400" using assms(1) by simp
  from load_nodule_data_valid[OF assms(6) v m] l assms(1,4,5) show ?thesis by auto
qed

lemma valid_nodule_example: "valid_nodule env_example volume_example (nodule_example r)"
  by (simp add: valid_nodule_def nodule_example_def volume_example_def env_example_def
      is_finite_def mean_centroid_def fmean_def round_astype_int_def astype_int_def
      round_half_even_def Let_def)

lemma resize_total_example: "resize_total env_example"
  by (simp add: resize_total_def env_example_def)

text \<open>Four scans of the example volume, with ratings 2, 4, 1 and 5.\<close>

theorem four_scans_scenario_witness:
  "length [scan_example 1 2, scan_example 2 4, scan_example 3 1, scan_example 4 5] = 4 \<and>
   distinct (map scan_id [scan_example 1 2, scan_example 2 4, scan_example 3 1, scan_example 4 5]) \<and>
   resize_total env_example \<and>
   (\<exists>images st.
      load_nodule_data env_example
        [scan_example 1 2, scan_example 2 4, scan_example 3 1, scan_example 4 5] 400 10 50
        = (images, [0, 1, 0, 1], st) \<and>
      length images = 4 \<and> benign_nodules st = 2 \<and> malignant_nodules st = 2 \<and>
      discarded_nodules st = 0)"
proof -
  let ?scans = "[scan_example 1 2, scan_example 2 4, scan_example 3 1, scan_example 4 5]"
  have a: "length ?scans = 4" "distinct (map scan_id ?scans)"
    by (simp_all add: scan_example_def)
  have b: "\<forall>sc \<in> set ?scans. \<exists>nodule. cluster_annotations sc = [nodule] \<and>
            valid_nodule env_example (to_volume sc) nodule"
    by (simp add: scan_example_def valid_nodule_example)
  have l: "scan_labels ?scans = [0, 1, 0, 1]"
    by (simp add: scan_labels_def scan_example_def nodule_label_def nodule_example_def
        List.map_filter_simps)
  have c: "count_list (scan_labels ?scans) 0 = 2" "count_list (scan_labels ?scans) 1 = 2"
    by (simp_all add: l)
  from four_scans_scenario [OF a b c resize_total_example] l a resize_total_example
  show ?thesis by auto
qed

text \<open>
  A nodule whose averaged centroid has a NaN coordinate leaves the \<open>try\<close> block at one
  of the first two \<open>continue\<close> statements, whatever the libraries do. An infinite
  coordinate is not caught by \<open>np.isnan\<close>: such a nodule goes on to the cast, the crop
  and the resize.
\<close>

lemma nan_centroid_discarded:
  assumes "any_isnan (mean_centroid nodule)"
  shows "fst (try_body ev k volume nodule lo hi) = NoMalignancy \<or>
         fst (try_body ev k volume nodule lo hi) = NanCentroid"
  using assms by (simp add: try_body_def Let_def)

section \<open>The sampler: no scan is skipped\<close>










end
